theory Spec2Isabelle
  imports Main
begin

section \<open>Strings and paths\<close>

text \<open>
  Go strings are byte sequences; they are modelled as \<^typ>\<open>string\<close> (a list of 8-bit
  characters).  The handler uses \<^verbatim>\<open>strings.HasSuffix\<close>, \<^verbatim>\<open>strings.TrimSuffix\<close>,
  \<^verbatim>\<open>path.Dir\<close> and \<^verbatim>\<open>path.Base\<close> of the Go standard library; each is written
  out below the way the library computes it.
\<close>

type_synonym byte = char

text \<open>\<^verbatim>\<open>len(s) >= len(suffix) && s[len(s)-len(suffix):] == suffix\<close>\<close>

definition HasSuffix :: "string \<Rightarrow> string \<Rightarrow> bool" where
  "HasSuffix s suffix =
     (length s \<ge> length suffix \<and> drop (length s - length suffix) s = suffix)"

text \<open>\<^verbatim>\<open>if HasSuffix(s, suffix) { return s[:len(s)-len(suffix)] }; return s\<close>\<close>

definition TrimSuffix :: "string \<Rightarrow> string \<Rightarrow> string" where
  "TrimSuffix s suffix =
     (if HasSuffix s suffix then take (length s - length suffix) s else s)"

text \<open>The index of the last occurrence of a byte, or \<open>-1\<close>.\<close>

fun LastIndexByte :: "string \<Rightarrow> char \<Rightarrow> int" where
  "LastIndexByte [] c = - 1"
| "LastIndexByte (x # xs) c =
     (let j = LastIndexByte xs c
      in if j \<ge> 0 then j + 1 else if x = c then 0 else - 1)"

text \<open>\<^verbatim>\<open>path.Split\<close>: \<^verbatim>\<open>i := LastIndexByte(path, '/'); return path[:i+1], path[i+1:]\<close>\<close>

definition gopath_Split :: "string \<Rightarrow> string \<times> string" where
  "gopath_Split p =
     (let i = LastIndexByte p (CHR ''/'')
      in (take (nat (i + 1)) p, drop (nat (i + 1)) p))"

text \<open>
  \<^verbatim>\<open>path.Clean\<close>.  The library keeps a read index \<open>r\<close> into the path, an output
  buffer \<open>out\<close> and the index \<open>dotdot\<close> below which \<^verbatim>\<open>..\<close> must not remove anything.
  Here the unread rest of the path stands for \<open>r\<close>, and the buffer is the list of the
  bytes written so far (\<open>out.w\<close> is its length).
\<close>

text \<open>The inner loop of a \<^verbatim>\<open>..\<close> element:
  \<^verbatim>\<open>for out.w > dotdot && out.index(out.w) != '/' { out.w-- }\<close>.  It starts at the
  last byte written, so the index stays inside the buffer.\<close>

function Clean_backtrack :: "nat \<Rightarrow> string \<Rightarrow> nat \<Rightarrow> nat" where
  "Clean_backtrack dotdot out w =
     (if w > dotdot \<and> out ! w \<noteq> CHR ''/''
      then Clean_backtrack dotdot out (w - 1) else w)"
  by pat_completeness auto
termination
  by (relation "measure (\<lambda>(dotdot, out, w). w)") auto

declare Clean_backtrack.simps [simp del]

text \<open>\<^verbatim>\<open>path[r] == '.' && (r+1 == n || path[r+1] == '/')\<close>\<close>

fun is_dot :: "string \<Rightarrow> bool" where
  "is_dot [c] = (c = CHR ''.'')"
| "is_dot (c # d # rest) = (c = CHR ''.'' \<and> d = CHR ''/'')"
| "is_dot [] = False"

text \<open>\<^verbatim>\<open>path[r] == '.' && path[r+1] == '.' && (r+2 == n || path[r+2] == '/')\<close>\<close>

fun is_dotdot :: "string \<Rightarrow> bool" where
  "is_dotdot [c, d] = (c = CHR ''.'' \<and> d = CHR ''.'')"
| "is_dotdot (c # d # e # rest) = (c = CHR ''.'' \<and> d = CHR ''.'' \<and> e = CHR ''/'')"
| "is_dotdot rest = False"

definition not_slash :: "char \<Rightarrow> bool" where
  "not_slash c = (c \<noteq> CHR ''/'')"

function Clean_loop :: "bool \<Rightarrow> string \<Rightarrow> nat \<Rightarrow> string \<Rightarrow> string" where
  "Clean_loop rooted rest dotdot out =
     (if rest = [] then out
      else if hd rest = CHR ''/'' then Clean_loop rooted (drop 1 rest) dotdot out
      else if is_dot rest then Clean_loop rooted (drop 1 rest) dotdot out
      else if is_dotdot rest then
        (if length out > dotdot then
           Clean_loop rooted (drop 2 rest) dotdot
             (take (Clean_backtrack dotdot out (length out - 1)) out)
         else if \<not> rooted then
           (let out' = (if length out > 0 then out @ ''/'' else out) @ ''..''
            in Clean_loop rooted (drop 2 rest) (length out') out')
         else Clean_loop rooted (drop 2 rest) dotdot out)
      else
        (let out' = (if (rooted \<and> length out \<noteq> 1) \<or> (\<not> rooted \<and> length out \<noteq> 0)
                     then out @ ''/'' else out)
         in Clean_loop rooted (dropWhile not_slash rest) dotdot
              (out' @ takeWhile not_slash rest)))"
  by pat_completeness auto
termination
proof (relation "measure (\<lambda>(rooted, rest, dotdot, out). length rest)", goal_cases)
  case 1
  show ?case by simp
next
  case (2 rooted rest dotdot out)
  from \<open>rest \<noteq> []\<close> show ?case by simp
next
  case (3 rooted rest dotdot out)
  from \<open>rest \<noteq> []\<close> show ?case by simp
next
  case (4 rooted rest dotdot out)
  from \<open>rest \<noteq> []\<close> show ?case by simp
next
  case (5 rooted rest dotdot out x)
  from \<open>rest \<noteq> []\<close> show ?case by simp
next
  case (6 rooted rest dotdot out)
  from \<open>rest \<noteq> []\<close> show ?case by simp
next
  case (7 rooted rest dotdot out x)
  from \<open>rest \<noteq> []\<close> obtain c cs where rest: "rest = c # cs"
    by (cases rest) auto
  with \<open>hd rest \<noteq> CHR ''/''\<close> have "not_slash c"
    by (simp add: not_slash_def)
  then have "length (dropWhile not_slash rest) \<le> length cs"
    by (simp add: rest length_dropWhile_le)
  then show ?case
    by (simp add: rest)
qed

declare Clean_loop.simps [simp del]

definition gopath_Clean :: "string \<Rightarrow> string" where
  "gopath_Clean p =
     (if p = [] then ''.''
      else
        (let rooted = (hd p = CHR ''/'');
             out = (if rooted then Clean_loop True (drop 1 p) 1 ''/''
                    else Clean_loop False p 0 [])
         in if out = [] then ''.'' else out))"

text \<open>\<^verbatim>\<open>path.Dir\<close>: \<^verbatim>\<open>dir, _ := Split(path); return Clean(dir)\<close>\<close>

definition gopath_Dir :: "string \<Rightarrow> string" where
  "gopath_Dir p = gopath_Clean (fst (gopath_Split p))"

text \<open>\<^verbatim>\<open>for len(path) > 0 && path[len(path)-1] == '/' { path = path[0 : len(path)-1] }\<close>\<close>

function strip_trailing_slashes :: "string \<Rightarrow> string" where
  "strip_trailing_slashes p =
     (if p \<noteq> [] \<and> last p = CHR ''/'' then strip_trailing_slashes (butlast p) else p)"
  by pat_completeness auto
termination
  by (relation "measure length") auto

declare strip_trailing_slashes.simps [simp del]

text \<open>\<^verbatim>\<open>path.Base\<close>\<close>

definition gopath_Base :: "string \<Rightarrow> string" where
  "gopath_Base p =
     (if p = [] then ''.''
      else
        (let p1 = strip_trailing_slashes p;
             i = LastIndexByte p1 (CHR ''/'');
             p2 = (if i \<ge> 0 then drop (nat (i + 1)) p1 else p1)
         in if p2 = [] then ''/'' else p2))"

section \<open>HTTP requests and responses\<close>

text \<open>
  \<^verbatim>\<open>http.Header\<close> is a \<^verbatim>\<open>map[string][]string\<close>.  It is modelled as the list of its
  (key, value) entries in the order they were added: the values of one key keep their
  order, which is all that \<^verbatim>\<open>Add\<close> and \<^verbatim>\<open>Get\<close> depend on.  All keys used by the
  handler are already in canonical MIME form.
\<close>

type_synonym http_Header = "(string \<times> string) list"

definition Header_Add :: "string \<Rightarrow> string \<Rightarrow> http_Header \<Rightarrow> http_Header" where
  "Header_Add key val h = h @ [(key, val)]"

definition Header_Values :: "http_Header \<Rightarrow> string \<Rightarrow> string list" where
  "Header_Values h key = map snd (filter (\<lambda>kv. fst kv = key) h)"

text \<open>\<^verbatim>\<open>Get\<close> returns the first value of the key, or the empty string.\<close>

definition Header_Get :: "http_Header \<Rightarrow> string \<Rightarrow> string" where
  "Header_Get h key = (case Header_Values h key of [] \<Rightarrow> [] | v # vs \<Rightarrow> v)"

text \<open>The fields of \<^verbatim>\<open>*http.Request\<close> that the server reads.\<close>

record Request =
  Method :: string
  URL_Path :: string
  Header :: http_Header
  RemoteAddr :: string

text \<open>
  The \<^verbatim>\<open>http.ResponseWriter\<close> of the connection: the header map and the status line
  (\<open>None\<close> until a status has been written).  \<^verbatim>\<open>WriteHeader\<close> writes the status once;
  a later call is ignored by \<^verbatim>\<open>net/http\<close>.  \<^verbatim>\<open>Write\<close> first writes status 200 when
  no status has been written yet.  The writer that \<^verbatim>\<open>http.Server\<close> passes to a handler
  implements \<^verbatim>\<open>http.Flusher\<close>, so the type assertion of the handler succeeds.
\<close>

record ResponseWriter =
  rw_header :: http_Header
  rw_status :: "nat option"

definition newResponseWriter :: ResponseWriter where
  "newResponseWriter = \<lparr>rw_header = [], rw_status = None\<rparr>"

definition StatusOK :: nat where "StatusOK = 200"
definition StatusMovedPermanently :: nat where "StatusMovedPermanently = 301"
definition StatusNotFound :: nat where "StatusNotFound = 404"

definition MethodGet :: string where "MethodGet = ''GET''"
definition MethodOptions :: string where "MethodOptions = ''OPTIONS''"

definition WriteHeader :: "nat \<Rightarrow> ResponseWriter \<Rightarrow> ResponseWriter" where
  "WriteHeader code w = (if rw_status w = None then w\<lparr>rw_status := Some code\<rparr> else w)"

definition w_Header_Add :: "string \<Rightarrow> string \<Rightarrow> ResponseWriter \<Rightarrow> ResponseWriter" where
  "w_Header_Add key val w = w\<lparr>rw_header := Header_Add key val (rw_header w)\<rparr>"

text \<open>
  \<^verbatim>\<open>hlsRemuxerRequest\<close>: the message the handler submits to the event loop.  \<open>W\<close> is
  the response writer as the handler hands it over; the reply channel \<^verbatim>\<open>Res\<close> is
  represented by what the environment delivers on it (see \<open>res\<close> below).
\<close>

record hlsRemuxerRequest =
  Dir :: string
  File :: string
  Req :: Request
  W :: ResponseWriter

section \<open>The server and its workers\<close>

text \<open>
  A \<^verbatim>\<open>*hlsRemuxer\<close> is a pointer; \<open>addr\<close> is the address of the object it points to,
  so two handles are the same instance exactly when they are equal.
\<close>

record hlsRemuxer =
  addr :: nat
  PathName :: string
  r_hlsAlwaysRemux :: bool
  r_hlsSegmentCount :: int
  r_hlsSegmentDuration :: int
  r_readBufferCount :: int

text \<open>
  Modelled from the spec: \<^verbatim>\<open>newHLSRemuxer\<close> is not part of the sources at hand.  It
  constructs a new worker bound to the given name and the shared configuration (segment
  count, segment duration, buffering parameters, always-remux flag).  The first argument
  is the address of the freshly allocated object.
\<close>

definition newHLSRemuxer ::
    "nat \<Rightarrow> bool \<Rightarrow> int \<Rightarrow> int \<Rightarrow> int \<Rightarrow> string \<Rightarrow> hlsRemuxer" where
  "newHLSRemuxer a alwaysRemux segmentCount segmentDuration bufferCount pathName =
     \<lparr>addr = a, PathName = pathName, r_hlsAlwaysRemux = alwaysRemux,
      r_hlsSegmentCount = segmentCount, r_hlsSegmentDuration = segmentDuration,
      r_readBufferCount = bufferCount\<rparr>"

text \<open>
  \<^verbatim>\<open>hlsServer\<close>: the configuration fields and the registry \<open>remuxers\<close> are those of
  the struct.  Its channels and its context appear as the events of the loop and as the
  environment of a goroutine (see below); the path manager, the logging parent, the wait
  group and the listener play no part in what is proved here.  \<open>nextAddr\<close> is the
  allocator (the next unused address).  Three logs record the effects of the event loop
  on its collaborators: the workers started by \<^verbatim>\<open>newHLSRemuxer\<close> (\<open>created\<close>), the
  workers deleted from the registry (\<open>removed\<close>), and the calls \<^verbatim>\<open>r.OnRequest(req)\<close>
  (\<open>forwarded\<close>), each newest first.
\<close>

record hlsServer =
  hlsAlwaysRemux :: bool
  hlsSegmentCount :: int
  hlsSegmentDuration :: int
  hlsAllowOrigin :: string
  readBufferCount :: int
  remuxers :: "string \<rightharpoonup> hlsRemuxer"
  nextAddr :: nat
  created :: "hlsRemuxer list"
  removed :: "hlsRemuxer list"
  forwarded :: "(hlsRemuxer \<times> hlsRemuxerRequest) list"

text \<open>The state that \<^verbatim>\<open>newHLSServer\<close> builds once the listener is open.\<close>

definition newHLSServer :: "bool \<Rightarrow> int \<Rightarrow> int \<Rightarrow> string \<Rightarrow> int \<Rightarrow> hlsServer" where
  "newHLSServer alwaysRemux segmentCount segmentDuration allowOrigin bufferCount =
     \<lparr>hlsAlwaysRemux = alwaysRemux, hlsSegmentCount = segmentCount,
      hlsSegmentDuration = segmentDuration, hlsAllowOrigin = allowOrigin,
      readBufferCount = bufferCount, remuxers = Map.empty, nextAddr = 0,
      created = [], removed = [], forwarded = []\<rparr>"

definition findOrCreateRemuxer :: "hlsServer \<Rightarrow> string \<Rightarrow> hlsRemuxer \<times> hlsServer" where
  "findOrCreateRemuxer s pathName =
     (case remuxers s pathName of
        Some r \<Rightarrow> (r, s)
      | None \<Rightarrow>
          (let r = newHLSRemuxer (nextAddr s) (hlsAlwaysRemux s) (hlsSegmentCount s)
                     (hlsSegmentDuration s) (readBufferCount s) pathName
           in (r, s\<lparr>remuxers := (remuxers s)(pathName \<mapsto> r),
                     nextAddr := Suc (nextAddr s),
                     created := r # created s\<rparr>)))"

text \<open>
  The events the loop of \<^verbatim>\<open>run\<close> selects on: a source became ready (with
  \<^verbatim>\<open>pa.Name()\<close>), a request, a worker's closure notification, and the cancellation of
  the context.
\<close>

datatype event =
    PathSourceReady string
  | RequestEv hlsRemuxerRequest
  | RemuxerClose hlsRemuxer
  | CtxDone

text \<open>One iteration of the loop for an event other than the cancellation.\<close>

fun run_event :: "hlsServer \<Rightarrow> event \<Rightarrow> hlsServer" where
  "run_event s (PathSourceReady name) =
     (if hlsAlwaysRemux s then snd (findOrCreateRemuxer s name) else s)"
| "run_event s (RequestEv req) =
     (let (r, s') = findOrCreateRemuxer s (Dir req)
      in s'\<lparr>forwarded := (r, req) # forwarded s'\<rparr>)"
| "run_event s (RemuxerClose c) =
     (case remuxers s (PathName c) of
        None \<Rightarrow> s
      | Some c2 \<Rightarrow>
          if c2 \<noteq> c then s
          else s\<lparr>remuxers := (remuxers s)(PathName c := None), removed := c # removed s\<rparr>)"
| "run_event s CtxDone = s"

text \<open>
  The loop: the events are taken in the order the \<^verbatim>\<open>select\<close> receives them; the
  cancellation leaves the loop (\<^verbatim>\<open>break outer\<close>) and nothing after it is processed.
\<close>

fun run :: "hlsServer \<Rightarrow> event list \<Rightarrow> hlsServer" where
  "run s [] = s"
| "run s (CtxDone # evs) = s"
| "run s (ev # evs) = run (run_event s ev) evs"

text \<open>The workers started and not yet deleted from the registry.\<close>

definition live :: "hlsServer \<Rightarrow> hlsRemuxer list" where
  "live s = filter (\<lambda>r. r \<notin> set (removed s)) (created s)"

text \<open>
  The invariant of the event loop: every handle is registered under its own name, the
  addresses handed out are below the allocator, only started workers are ever deleted, a
  worker is started once, the registry holds exactly the workers started and not yet
  deleted, and a request is only ever passed to a started worker of the requested name.
\<close>

definition registry_inv :: "hlsServer \<Rightarrow> bool" where
  "registry_inv s \<longleftrightarrow>
     (\<forall>n r. remuxers s n = Some r \<longrightarrow> PathName r = n) \<and>
     (\<forall>r \<in> set (created s). addr r < nextAddr s) \<and>
     set (removed s) \<subseteq> set (created s) \<and>
     distinct (created s) \<and>
     ran (remuxers s) = set (created s) - set (removed s) \<and>
     (\<forall>(r, q) \<in> set (forwarded s). PathName r = Dir q \<and> r \<in> set (created s))"

section \<open>The HTTP front end\<close>

text \<open>A run-time panic of the Go program.\<close>

datatype panic = SliceBoundsOutOfRange

text \<open>
  The handler up to the point where it either has answered or has built the message for
  the event loop: it answers by itself (\<open>Respond\<close>, with the final state of the response
  writer) or it goes on to submit a message (\<open>Submit\<close>).
\<close>

datatype routed = Respond ResponseWriter | Submit hlsRemuxerRequest

text \<open>The closure that computes \<^verbatim>\<open>dir, fname\<close>.\<close>

definition dir_fname :: "string \<Rightarrow> string \<times> string" where
  "dir_fname pa =
     (if HasSuffix pa ''.ts'' \<or> HasSuffix pa ''.m3u8''
      then (gopath_Dir pa, gopath_Base pa)
      else (pa, []))"

text \<open>
  \<^verbatim>\<open>ServeHTTP\<close> from the slice expression to the construction of \<^verbatim>\<open>hreq\<close> (the log
  line before it is left out).  The slice expression \<^verbatim>\<open>r.URL.Path[1:]\<close> panics when
  the path has no byte at all; otherwise it drops the first byte, whatever it is.
\<close>

definition ServeHTTP_route :: "hlsServer \<Rightarrow> ResponseWriter \<Rightarrow> Request \<Rightarrow> panic + routed" where
  "ServeHTTP_route s w0 r =
     (if length (URL_Path r) < 1 then Inl SliceBoundsOutOfRange
      else
        (let pa = drop 1 (URL_Path r);
             w1 = w_Header_Add ''Access-Control-Allow-Origin'' (hlsAllowOrigin s) w0;
             w = w_Header_Add ''Access-Control-Allow-Credentials'' ''true'' w1
         in if Method r = MethodGet then
              (if pa = [] \<or> pa = ''favicon.ico'' then
                 Inr (Respond (WriteHeader StatusNotFound w))
               else
                 (let (dir, fname) = dir_fname pa
                  in if fname = [] \<and> \<not> HasSuffix dir ''/'' then
                       Inr (Respond (WriteHeader StatusMovedPermanently
                              (w_Header_Add ''Location'' (''/'' @ dir @ ''/'') w)))
                     else
                       Inr (Submit \<lparr>Dir = TrimSuffix dir ''/'', File = fname, Req = r,
                                    W = w\<rparr>)))
            else if Method r = MethodOptions then
              Inr (Respond (WriteHeader StatusOK
                     (w_Header_Add ''Access-Control-Allow-Headers''
                        (Header_Get (Header r) ''Access-Control-Request-Headers'')
                        (w_Header_Add ''Access-Control-Allow-Methods'' ''GET, OPTIONS'' w))))
            else Inr (Respond (WriteHeader StatusNotFound w))))"

text \<open>
  The channel operations the server's goroutines block on: the sends to the three
  channels of the event loop, the receive from the reply channel \<^verbatim>\<open>cres\<close>, and the
  receive from \<^verbatim>\<open>s.ctx.Done()\<close>.
\<close>

datatype chan_op =
    Send_request
  | Send_remuxerClose
  | Send_pathSourceReady
  | Recv_cres
  | Recv_ctxDone

text \<open>One call of \<^verbatim>\<open>Read\<close> on the reply stream: the bytes \<^verbatim>\<open>buf[:n]\<close> and whether
  the error is non-nil.\<close>

datatype read_result = ReadResult "byte list" bool

text \<open>
  What the rest of the system does while one goroutine runs: whether the event loop
  takes a message offered to it, whether the context has been cancelled, which ready
  case a \<^verbatim>\<open>select\<close> picks (Go picks one at random), what the worker does to the
  response writer it was handed before it replies, what it delivers on the reply channel
  (\<open>None\<close>: nothing, ever; \<open>Some None\<close>: the nil reader; \<open>Some (Some rs)\<close>: a
  reader whose successive \<^verbatim>\<open>Read\<close> calls return \<open>rs\<close>), and whether the successive
  \<^verbatim>\<open>Write\<close> calls to the client succeed.
\<close>

record env =
  loopReceives :: bool
  ctxDone :: bool
  pick :: nat
  workerW :: "ResponseWriter \<Rightarrow> ResponseWriter"
  res :: "read_result list option option"
  writes :: "bool list"

definition ready :: "env \<Rightarrow> chan_op \<Rightarrow> bool" where
  "ready e c =
     (case c of
        Recv_ctxDone \<Rightarrow> ctxDone e
      | Recv_cres \<Rightarrow> res e \<noteq> None
      | _ \<Rightarrow> loopReceives e)"

text \<open>A \<^verbatim>\<open>select\<close> over the given cases: \<open>None\<close> when no case is ready (the goroutine
  stays blocked), otherwise one of the ready cases.\<close>

definition go_select :: "env \<Rightarrow> chan_op list \<Rightarrow> chan_op option" where
  "go_select e ops =
     (let rs = filter (ready e) ops
      in if rs = [] then None else Some (rs ! (pick e mod length rs)))"

text \<open>What the handler did on the reply stream and on the connection, in order.\<close>

datatype io_event =
    EvRead "byte list" bool
  | EvWrite "byte list" bool
  | EvFlush

record handler =
  h_w :: ResponseWriter
  h_sent :: "hlsRemuxerRequest option"
  h_io :: "io_event list"

text \<open>
  How far a call of the handler gets: it returns, it stays blocked in a \<^verbatim>\<open>select\<close> or
  a receive over the given cases, it is still in the copy loop when the recorded
  \<^verbatim>\<open>Read\<close> and \<^verbatim>\<open>Write\<close> results end, or it panics.
\<close>

datatype result =
    Returned handler
  | Blocked "chan_op list" handler
  | Copying handler
  | Panicked panic

text \<open>
  The copy loop.  \<^verbatim>\<open>buf\<close> has 4096 bytes, so \<^verbatim>\<open>buf[:n]\<close> panics for a larger
  \<open>n\<close>.  \<^verbatim>\<open>Write\<close> writes status 200 first when no status has been written.
\<close>

fun copy_loop :: "read_result list \<Rightarrow> bool list \<Rightarrow> handler \<Rightarrow> result" where
  "copy_loop [] ws h = Copying h"
| "copy_loop (ReadResult d err # rs) ws h =
     (if err then Returned (h\<lparr>h_io := h_io h @ [EvRead d True]\<rparr>)
      else if length d > 4096 then Panicked SliceBoundsOutOfRange
      else
        (case ws of
           [] \<Rightarrow> Copying (h\<lparr>h_io := h_io h @ [EvRead d False]\<rparr>)
         | ok # ws' \<Rightarrow>
             if ok then
               copy_loop rs ws'
                 (h\<lparr>h_w := WriteHeader StatusOK (h_w h),
                    h_io := h_io h @ [EvRead d False, EvWrite d True, EvFlush]\<rparr>)
             else
               Returned (h\<lparr>h_w := WriteHeader StatusOK (h_w h),
                          h_io := h_io h @ [EvRead d False, EvWrite d False]\<rparr>)))"

text \<open>The \<^verbatim>\<open>select\<close> that submits \<^verbatim>\<open>hreq\<close>, the receive of the reply and the copy
  loop.\<close>

definition ServeHTTP_submit :: "env \<Rightarrow> hlsRemuxerRequest \<Rightarrow> result" where
  "ServeHTTP_submit e hreq =
     (case go_select e [Send_request, Recv_ctxDone] of
        None \<Rightarrow> Blocked [Send_request, Recv_ctxDone] \<lparr>h_w = W hreq, h_sent = None, h_io = []\<rparr>
      | Some Send_request \<Rightarrow>
          (case res e of
             None \<Rightarrow> Blocked [Recv_cres] \<lparr>h_w = W hreq, h_sent = Some hreq, h_io = []\<rparr>
           | Some None \<Rightarrow>
               Returned \<lparr>h_w = workerW e (W hreq), h_sent = Some hreq, h_io = []\<rparr>
           | Some (Some rd) \<Rightarrow>
               copy_loop rd (writes e)
                 \<lparr>h_w = workerW e (W hreq), h_sent = Some hreq, h_io = []\<rparr>)
      | Some _ \<Rightarrow> Returned \<lparr>h_w = W hreq, h_sent = None, h_io = []\<rparr>)"

definition ServeHTTP :: "hlsServer \<Rightarrow> env \<Rightarrow> ResponseWriter \<Rightarrow> Request \<Rightarrow> result" where
  "ServeHTTP s e w r =
     (case ServeHTTP_route s w r of
        Inl p \<Rightarrow> Panicked p
      | Inr (Respond w') \<Rightarrow> Returned \<lparr>h_w = w', h_sent = None, h_io = []\<rparr>
      | Inr (Submit hreq) \<Rightarrow> ServeHTTP_submit e hreq)"

text \<open>
  \<^verbatim>\<open>OnRemuxerClose\<close> and \<^verbatim>\<open>OnPathSourceReady\<close>: the event reaches the loop, it is
  dropped because the context is cancelled, or the caller stays blocked.
\<close>

datatype notify = Delivered event | Dropped | NotifyBlocked "chan_op list"

definition OnRemuxerClose :: "env \<Rightarrow> hlsRemuxer \<Rightarrow> notify" where
  "OnRemuxerClose e c =
     (case go_select e [Send_remuxerClose, Recv_ctxDone] of
        None \<Rightarrow> NotifyBlocked [Send_remuxerClose, Recv_ctxDone]
      | Some Send_remuxerClose \<Rightarrow> Delivered (RemuxerClose c)
      | Some _ \<Rightarrow> Dropped)"

definition OnPathSourceReady :: "env \<Rightarrow> string \<Rightarrow> notify" where
  "OnPathSourceReady e name =
     (case go_select e [Send_pathSourceReady, Recv_ctxDone] of
        None \<Rightarrow> NotifyBlocked [Send_pathSourceReady, Recv_ctxDone]
      | Some Send_pathSourceReady \<Rightarrow> Delivered (PathSourceReady name)
      | Some _ \<Rightarrow> Dropped)"

section \<open>Example inputs\<close>

text \<open>A server, requests and environments used in the examples below.\<close>

definition srv0 :: hlsServer where "srv0 = newHLSServer False 3 1000 ''*'' 512"

definition cam1_get :: Request where
  "cam1_get = \<lparr>Method = ''GET'', URL_Path = ''/cam1/index.m3u8'', Header = [],
      RemoteAddr = ''10.0.0.1:5000''\<rparr>"

definition cam1_hreq :: hlsRemuxerRequest where
  "cam1_hreq = \<lparr>Dir = ''cam1'', File = ''index.m3u8'', Req = cam1_get,
             W = \<lparr>rw_header = [(''Access-Control-Allow-Origin'', ''*''),
                                (''Access-Control-Allow-Credentials'', ''true'')],
                  rw_status = None\<rparr>\<rparr>"

definition options_no_path :: Request where
  "options_no_path = \<lparr>Method = ''OPTIONS'', URL_Path = [],
      Header = [(''Access-Control-Request-Headers'', ''Range'')],
      RemoteAddr = ''10.0.0.1:5000''\<rparr>"

definition connect_request :: Request where
  "connect_request = \<lparr>Method = ''CONNECT'', URL_Path = [], Header = [],
      RemoteAddr = ''10.0.0.1:5000''\<rparr>"

definition env0 :: env where
  "env0 = \<lparr>loopReceives = True, ctxDone = False, pick = 0, workerW = (\<lambda>w. w),
      res = Some None, writes = []\<rparr>"

definition env_stream :: env where
  "env_stream = \<lparr>loopReceives = True, ctxDone = False, pick = 0, workerW = (\<lambda>w. w),
      res = Some (Some [ReadResult ''#EXTM3U'' False, ReadResult ''seg0.ts'' False,
                        ReadResult [] True]),
      writes = [True, True, True]\<rparr>"

definition env_cancelled :: env where
  "env_cancelled = \<lparr>loopReceives = True, ctxDone = True, pick = 0, workerW = (\<lambda>w. w),
      res = None, writes = []\<rparr>"

section \<open>Properties\<close>

subsection \<open>The registry and the event loop\<close>

lemma inv_init: "registry_inv (newHLSServer ar sc sd ao rb)"
  by (simp add: registry_inv_def newHLSServer_def)

lemma findOrCreate_Some:
  "remuxers s n = Some r \<Longrightarrow> findOrCreateRemuxer s n = (r, s)"
  by (simp add: findOrCreateRemuxer_def)

lemma findOrCreate_None:
  assumes "remuxers s n = None"
  shows "findOrCreateRemuxer s n =
     (newHLSRemuxer (nextAddr s) (hlsAlwaysRemux s) (hlsSegmentCount s)
         (hlsSegmentDuration s) (readBufferCount s) n,
      s\<lparr>remuxers := (remuxers s)(n \<mapsto> newHLSRemuxer (nextAddr s) (hlsAlwaysRemux s)
             (hlsSegmentCount s) (hlsSegmentDuration s) (readBufferCount s) n),
        nextAddr := Suc (nextAddr s),
        created := newHLSRemuxer (nextAddr s) (hlsAlwaysRemux s) (hlsSegmentCount s)
             (hlsSegmentDuration s) (readBufferCount s) n # created s\<rparr>)"
  using assms by (simp add: findOrCreateRemuxer_def Let_def)

lemma fresh_not_created:
  assumes "registry_inv s" and "addr r = nextAddr s"
  shows "r \<notin> set (created s)"
  using assms unfolding registry_inv_def by (metis less_irrefl)

lemma inv_findOrCreate:
  assumes inv: "registry_inv s"
  shows "registry_inv (snd (findOrCreateRemuxer s n))"
proof (cases "remuxers s n")
  case (Some r)
  with inv show ?thesis by (simp add: findOrCreate_Some)
next
  case None
  define r where "r = newHLSRemuxer (nextAddr s) (hlsAlwaysRemux s) (hlsSegmentCount s)
         (hlsSegmentDuration s) (readBufferCount s) n"
  have ra: "addr r = nextAddr s" and rn: "PathName r = n"
    by (simp_all add: r_def newHLSRemuxer_def)
  have fresh: "r \<notin> set (created s)"
    using inv ra by (rule fresh_not_created)
  have nrem: "r \<notin> set (removed s)"
    using fresh inv unfolding registry_inv_def by blast
  have ran: "ran ((remuxers s)(n \<mapsto> r)) = insert r (ran (remuxers s))"
    using None by simp
  have "registry_inv (s\<lparr>remuxers := (remuxers s)(n \<mapsto> r), nextAddr := Suc (nextAddr s),
        created := r # created s\<rparr>)"
    unfolding registry_inv_def
  proof (intro conjI)
    show "\<forall>m x. remuxers (s\<lparr>remuxers := (remuxers s)(n \<mapsto> r), nextAddr := Suc (nextAddr s),
        created := r # created s\<rparr>) m = Some x \<longrightarrow> PathName x = m"
      using inv rn unfolding registry_inv_def by auto
  qed (use inv ra fresh nrem ran in \<open>auto simp: registry_inv_def less_Suc_eq\<close>)
  then show ?thesis
    using None by (simp add: findOrCreate_None r_def)
qed

lemma inv_request:
  assumes inv: "registry_inv s"
  shows "registry_inv (run_event s (RequestEv q))"
proof -
  obtain r s' where f: "findOrCreateRemuxer s (Dir q) = (r, s')"
    by (cases "findOrCreateRemuxer s (Dir q)")
  have inv': "registry_inv s'"
    using inv_findOrCreate [OF inv, of "Dir q"] f by simp
  have reg: "remuxers s' (Dir q) = Some r"
    using f by (cases "remuxers s (Dir q)") (auto simp: findOrCreate_Some findOrCreate_None)
  have "PathName r = Dir q"
    using inv' reg unfolding registry_inv_def by blast
  moreover have "r \<in> set (created s')"
  proof -
    have "r \<in> ran (remuxers s')" using reg by (auto simp: ran_def)
    then show ?thesis using inv' unfolding registry_inv_def by blast
  qed
  ultimately have "registry_inv (s'\<lparr>forwarded := (r, q) # forwarded s'\<rparr>)"
    using inv' unfolding registry_inv_def by simp
  then show ?thesis using f by simp
qed

lemma ran_delete_own:
  assumes own: "\<forall>n r. m n = Some r \<longrightarrow> f r = n" and c: "m (f c) = Some c"
  shows "ran (m(f c := None)) = ran m - {c}"
proof (intro set_eqI iffI)
  fix x assume "x \<in> ran (m(f c := None))"
  then obtain k where k: "k \<noteq> f c" "m k = Some x"
    by (auto simp: ran_def split: if_splits)
  with own have "f x = k" by blast
  with k have "x \<noteq> c" by auto
  with k show "x \<in> ran m - {c}" by (auto simp: ran_def)
next
  fix x assume "x \<in> ran m - {c}"
  then obtain k where k: "m k = Some x" and ne: "x \<noteq> c"
    by (auto simp: ran_def)
  with c have "k \<noteq> f c" by auto
  with k show "x \<in> ran (m(f c := None))" by (auto simp: ran_def)
qed

lemma inv_close:
  assumes inv: "registry_inv s"
  shows "registry_inv (run_event s (RemuxerClose c))"
proof (cases "remuxers s (PathName c) = Some c")
  case False
  then have "run_event s (RemuxerClose c) = s"
    by (auto split: option.splits)
  with inv show ?thesis by simp
next
  case True
  have own: "\<forall>n r. remuxers s n = Some r \<longrightarrow> PathName r = n"
    using inv unfolding registry_inv_def by blast
  have ran: "ran ((remuxers s)(PathName c := None)) = ran (remuxers s) - {c}"
    using own True by (rule ran_delete_own)
  have "c \<in> ran (remuxers s)" using True by (auto simp: ran_def)
  then have cc: "c \<in> set (created s)"
    using inv unfolding registry_inv_def by blast
  have "registry_inv (s\<lparr>remuxers := (remuxers s)(PathName c := None),
          removed := c # removed s\<rparr>)"
    unfolding registry_inv_def
    using inv cc ran unfolding registry_inv_def by auto
  with True show ?thesis by simp
qed

lemma inv_run_event:
  "registry_inv s \<Longrightarrow> registry_inv (run_event s ev)"
  by (cases ev) (simp_all add: inv_findOrCreate inv_request inv_close del: run_event.simps(2,3))

lemma inv_run:
  "registry_inv s \<Longrightarrow> registry_inv (run s evs)"
  by (induction s evs rule: run.induct) (simp_all add: inv_run_event del: run_event.simps)

lemma inv_live:
  assumes inv: "registry_inv s"
  shows "set (live s) = ran (remuxers s)" and "distinct (map PathName (live s))"
proof -
  show l: "set (live s) = ran (remuxers s)"
    using inv unfolding registry_inv_def live_def by auto
  have "inj_on PathName (ran (remuxers s))"
  proof (rule inj_onI)
    fix x y assume "x \<in> ran (remuxers s)" "y \<in> ran (remuxers s)" "PathName x = PathName y"
    moreover have "\<And>z. z \<in> ran (remuxers s) \<Longrightarrow> remuxers s (PathName z) = Some z"
    proof -
      fix z assume "z \<in> ran (remuxers s)"
      then obtain k where k: "remuxers s k = Some z" by (auto simp: ran_def)
      moreover have "PathName z = k"
        using inv k unfolding registry_inv_def by blast
      ultimately show "remuxers s (PathName z) = Some z" by simp
    qed
    ultimately show "x = y" by (metis option.inject)
  qed
  moreover have "distinct (live s)"
    using inv unfolding registry_inv_def live_def by simp
  ultimately show "distinct (map PathName (live s))"
    using l by (simp add: distinct_map)
qed


text \<open>
  Claim C1.  After any sequence of loop events, starting from the state built by
  \<^verbatim>\<open>newHLSServer\<close>: every registered handle is stored under its own name and
  \<^verbatim>\<open>findOrCreateRemuxer\<close> returns it with the state unchanged; for a name with no entry,
  \<^verbatim>\<open>findOrCreateRemuxer\<close> starts a worker that did not exist before and registers it
  under that name; the registry holds exactly the live workers (started and not yet
  deleted), and no two live workers have the same name.  Every request was passed to a
  started worker of the requested name; and as long as no worker has been deleted, no
  two workers were ever started for one name and every request was passed to the worker
  registered under its name.
\<close>

theorem registry_one_worker_per_name:
  fixes evs :: "event list" and ar :: bool and sc :: int and sd :: int and ao :: string
    and rb :: int
  defines "s \<equiv> run (newHLSServer ar sc sd ao rb) evs"
  shows
    "(\<forall>n r. remuxers s n = Some r \<longrightarrow>
         PathName r = n \<and> findOrCreateRemuxer s n = (r, s)) \<and>
     (\<forall>n. remuxers s n = None \<longrightarrow>
         (\<exists>r. findOrCreateRemuxer s n =
                (r, s\<lparr>remuxers := (remuxers s)(n \<mapsto> r), nextAddr := Suc (nextAddr s),
                       created := r # created s\<rparr>) \<and>
              PathName r = n \<and> r \<notin> set (created s))) \<and>
     set (live s) = ran (remuxers s) \<and>
     distinct (map PathName (live s)) \<and>
     (\<forall>(r, q) \<in> set (forwarded s). PathName r = Dir q \<and> r \<in> set (created s)) \<and>
     (removed s = [] \<longrightarrow>
        distinct (map PathName (created s)) \<and>
        (\<forall>(r, q) \<in> set (forwarded s). remuxers s (Dir q) = Some r))"
proof -
  have inv: "registry_inv s"
    unfolding s_def by (rule inv_run [OF inv_init])
  have own: "\<forall>n r. remuxers s n = Some r \<longrightarrow>
         PathName r = n \<and> findOrCreateRemuxer s n = (r, s)"
    using inv by (simp add: registry_inv_def findOrCreate_Some)
  have new: "\<forall>n. remuxers s n = None \<longrightarrow>
         (\<exists>r. findOrCreateRemuxer s n =
                (r, s\<lparr>remuxers := (remuxers s)(n \<mapsto> r), nextAddr := Suc (nextAddr s),
                       created := r # created s\<rparr>) \<and>
              PathName r = n \<and> r \<notin> set (created s))"
  proof (intro allI impI)
    fix n assume none: "remuxers s n = None"
    let ?r = "newHLSRemuxer (nextAddr s) (hlsAlwaysRemux s) (hlsSegmentCount s)
         (hlsSegmentDuration s) (readBufferCount s) n"
    have "addr ?r = nextAddr s" "PathName ?r = n"
      by (simp_all add: newHLSRemuxer_def)
    moreover from this have "?r \<notin> set (created s)"
      using inv by (simp add: fresh_not_created)
    ultimately show "\<exists>r. findOrCreateRemuxer s n =
                (r, s\<lparr>remuxers := (remuxers s)(n \<mapsto> r), nextAddr := Suc (nextAddr s),
                       created := r # created s\<rparr>) \<and>
              PathName r = n \<and> r \<notin> set (created s)"
      using findOrCreate_None [OF none] by blast
  qed
  have fw: "\<forall>(r, q) \<in> set (forwarded s). PathName r = Dir q \<and> r \<in> set (created s)"
    using inv unfolding registry_inv_def by blast
  have nr: "removed s = [] \<longrightarrow>
        distinct (map PathName (created s)) \<and>
        (\<forall>(r, q) \<in> set (forwarded s). remuxers s (Dir q) = Some r)"
  proof (intro impI conjI)
    assume none: "removed s = []"
    then show "distinct (map PathName (created s))"
      using inv_live(2) [OF inv] by (simp add: live_def)
    show "\<forall>(r, q) \<in> set (forwarded s). remuxers s (Dir q) = Some r"
    proof (clarify)
      fix r q assume rq: "(r, q) \<in> set (forwarded s)"
      with fw have n: "PathName r = Dir q" and c: "r \<in> set (created s)"
        by auto
      from c none have "r \<in> set (live s)"
        by (simp add: live_def)
      then obtain k where k: "remuxers s k = Some r"
        using inv_live(1) [OF inv] by (auto simp: ran_def)
      with own have "PathName r = k" by blast
      with k n show "remuxers s (Dir q) = Some r" by simp
    qed
  qed
  from own new inv_live [OF inv] fw nr show ?thesis
    by blast
qed

theorem registry_one_worker_per_name_witness:
  "remuxers (run (newHLSServer True 3 1000 ''*'' 512)
       [RequestEv cam1_hreq, PathSourceReady ''cam1'', RequestEv cam1_hreq]) ''cam1''
     = Some (newHLSRemuxer 0 True 3 1000 512 ''cam1'') \<and>
   remuxers (run (newHLSServer True 3 1000 ''*'' 512)
       [RequestEv cam1_hreq, PathSourceReady ''cam1'', RequestEv cam1_hreq]) ''cam2''
     = None \<and>
   removed (run (newHLSServer True 3 1000 ''*'' 512)
       [RequestEv cam1_hreq, PathSourceReady ''cam1'', RequestEv cam1_hreq]) = [] \<and>
   created (run (newHLSServer True 3 1000 ''*'' 512)
       [RequestEv cam1_hreq, PathSourceReady ''cam1'', RequestEv cam1_hreq])
     = [newHLSRemuxer 0 True 3 1000 512 ''cam1''] \<and>
   forwarded (run (newHLSServer True 3 1000 ''*'' 512)
       [RequestEv cam1_hreq, PathSourceReady ''cam1'', RequestEv cam1_hreq])
     = [(newHLSRemuxer 0 True 3 1000 512 ''cam1'', cam1_hreq),
        (newHLSRemuxer 0 True 3 1000 512 ''cam1'', cam1_hreq)] \<and>
   distinct (map PathName (live (run (newHLSServer True 3 1000 ''*'' 512)
       [RequestEv cam1_hreq, PathSourceReady ''cam1'', RequestEv cam1_hreq])))"
  using registry_one_worker_per_name [of True 3 1000 "''*''" 512
      "[RequestEv cam1_hreq, PathSourceReady ''cam1'', RequestEv cam1_hreq]"]
  by (simp add: newHLSServer_def findOrCreateRemuxer_def cam1_hreq_def cam1_get_def Let_def)

text \<open>
  Claim C2.  Processing the closure notification of a handle \<open>c\<close> deletes the entry of
  \<open>c\<close>'s name exactly when that entry is \<open>c\<close> itself; when the entry is absent or is
  another handle the whole state is unchanged, so the registry changes if and only if
  the entry was \<open>c\<close>, and a newer worker registered under the name stays registered.
\<close>

theorem remuxerClose_identity_checked:
  "(remuxers s (PathName c) = Some c \<longrightarrow>
      remuxers (run_event s (RemuxerClose c)) = (remuxers s)(PathName c := None)) \<and>
   (remuxers s (PathName c) \<noteq> Some c \<longrightarrow> run_event s (RemuxerClose c) = s) \<and>
   (remuxers (run_event s (RemuxerClose c)) \<noteq> remuxers s \<longleftrightarrow>
      remuxers s (PathName c) = Some c) \<and>
   (\<forall>b. remuxers s (PathName c) = Some b \<and> b \<noteq> c \<longrightarrow>
      remuxers (run_event s (RemuxerClose c)) (PathName c) = Some b)"
proof -
  have del: "remuxers s (PathName c) = Some c \<Longrightarrow>
      remuxers (run_event s (RemuxerClose c)) = (remuxers s)(PathName c := None)"
    by simp
  have keep: "remuxers s (PathName c) \<noteq> Some c \<Longrightarrow> run_event s (RemuxerClose c) = s"
    by (auto split: option.splits)
  have "remuxers s (PathName c) = Some c \<Longrightarrow>
      remuxers (run_event s (RemuxerClose c)) \<noteq> remuxers s"
    by (simp add: fun_eq_iff)
  then have chg: "remuxers (run_event s (RemuxerClose c)) \<noteq> remuxers s \<longleftrightarrow>
      remuxers s (PathName c) = Some c"
    using keep by auto
  have stale: "\<forall>b. remuxers s (PathName c) = Some b \<and> b \<noteq> c \<longrightarrow>
      remuxers (run_event s (RemuxerClose c)) (PathName c) = Some b"
    by simp
  from del keep chg stale show ?thesis
    by (intro conjI impI) assumption+
qed

theorem remuxerClose_identity_checked_witness:
  "remuxers (run (newHLSServer False 3 1000 ''*'' 512)
       [RequestEv cam1_hreq, RemuxerClose (newHLSRemuxer 0 False 3 1000 512 ''cam1''),
        RequestEv cam1_hreq]) ''cam1''
     = Some (newHLSRemuxer 1 False 3 1000 512 ''cam1'') \<and>
   run_event (run (newHLSServer False 3 1000 ''*'' 512)
       [RequestEv cam1_hreq, RemuxerClose (newHLSRemuxer 0 False 3 1000 512 ''cam1''),
        RequestEv cam1_hreq]) (RemuxerClose (newHLSRemuxer 0 False 3 1000 512 ''cam1''))
     = run (newHLSServer False 3 1000 ''*'' 512)
       [RequestEv cam1_hreq, RemuxerClose (newHLSRemuxer 0 False 3 1000 512 ''cam1''),
        RequestEv cam1_hreq] \<and>
   remuxers (run_event (run (newHLSServer False 3 1000 ''*'' 512)
       [RequestEv cam1_hreq, RemuxerClose (newHLSRemuxer 0 False 3 1000 512 ''cam1''),
        RequestEv cam1_hreq]) (RemuxerClose (newHLSRemuxer 1 False 3 1000 512 ''cam1'')))
     ''cam1'' = None"
  using remuxerClose_identity_checked [of
      "run (newHLSServer False 3 1000 ''*'' 512)
       [RequestEv cam1_hreq, RemuxerClose (newHLSRemuxer 0 False 3 1000 512 ''cam1''),
        RequestEv cam1_hreq]"
      "newHLSRemuxer 0 False 3 1000 512 ''cam1''"]
    remuxerClose_identity_checked [of
      "run (newHLSServer False 3 1000 ''*'' 512)
       [RequestEv cam1_hreq, RemuxerClose (newHLSRemuxer 0 False 3 1000 512 ''cam1''),
        RequestEv cam1_hreq]"
      "newHLSRemuxer 1 False 3 1000 512 ''cam1''"]
  by (simp add: newHLSServer_def findOrCreateRemuxer_def cam1_hreq_def cam1_get_def Let_def
      newHLSRemuxer_def)

subsection \<open>Routing of requests\<close>

lemma gopath_Base_nonempty: "gopath_Base p \<noteq> []"
  by (simp add: gopath_Base_def Let_def)

lemma suffix_not_reserved:
  "HasSuffix pa ''.ts'' \<or> HasSuffix pa ''.m3u8'' \<Longrightarrow> pa \<noteq> [] \<and> pa \<noteq> ''favicon.ico''"
  by (auto simp: HasSuffix_def)

lemma slash_not_reserved:
  "HasSuffix pa ''/'' \<Longrightarrow> pa \<noteq> [] \<and> pa \<noteq> ''favicon.ico''"
  by (auto simp: HasSuffix_def)

lemma cam1_dir_base:
  "gopath_Dir ''cam1/index.m3u8'' = ''cam1''" "gopath_Base ''cam1/index.m3u8'' = ''index.m3u8''"
  by code_simp+

lemma route_empty_path:
  "URL_Path r = [] \<Longrightarrow> ServeHTTP_route s w r = Inl SliceBoundsOutOfRange"
  by (simp add: ServeHTTP_route_def)

lemma route_get_media:
  assumes "Method r = MethodGet" and "URL_Path r = c # pa"
    and "HasSuffix pa ''.ts'' \<or> HasSuffix pa ''.m3u8''"
  shows "ServeHTTP_route s w r =
     Inr (Submit \<lparr>Dir = TrimSuffix (gopath_Dir pa) ''/'', File = gopath_Base pa, Req = r,
        W = w_Header_Add ''Access-Control-Allow-Credentials'' ''true''
              (w_Header_Add ''Access-Control-Allow-Origin'' (hlsAllowOrigin s) w)\<rparr>)"
  using assms suffix_not_reserved [OF assms(3)]
  by (simp add: ServeHTTP_route_def dir_fname_def gopath_Base_nonempty Let_def)

lemma route_get_redirect:
  assumes "Method r = MethodGet" and "URL_Path r = c # pa"
    and "\<not> HasSuffix pa ''.ts''" and "\<not> HasSuffix pa ''.m3u8''"
    and "\<not> HasSuffix pa ''/''" and "pa \<noteq> []" and "pa \<noteq> ''favicon.ico''"
  shows "ServeHTTP_route s w r =
     Inr (Respond (WriteHeader StatusMovedPermanently
        (w_Header_Add ''Location'' (''/'' @ pa @ ''/'')
           (w_Header_Add ''Access-Control-Allow-Credentials'' ''true''
              (w_Header_Add ''Access-Control-Allow-Origin'' (hlsAllowOrigin s) w)))))"
  using assms
  by (simp add: ServeHTTP_route_def dir_fname_def Let_def)

lemma route_get_directory:
  assumes "Method r = MethodGet" and "URL_Path r = c # pa"
    and "\<not> HasSuffix pa ''.ts''" and "\<not> HasSuffix pa ''.m3u8''"
    and "HasSuffix pa ''/''"
  shows "ServeHTTP_route s w r =
     Inr (Submit \<lparr>Dir = TrimSuffix pa ''/'', File = [], Req = r,
        W = w_Header_Add ''Access-Control-Allow-Credentials'' ''true''
              (w_Header_Add ''Access-Control-Allow-Origin'' (hlsAllowOrigin s) w)\<rparr>)"
  using assms slash_not_reserved [OF assms(5)]
  by (simp add: ServeHTTP_route_def dir_fname_def Let_def)

lemma route_get_reserved:
  assumes "Method r = MethodGet" and "URL_Path r = c # pa"
    and "pa = [] \<or> pa = ''favicon.ico''"
  shows "ServeHTTP_route s w r =
     Inr (Respond (WriteHeader StatusNotFound
           (w_Header_Add ''Access-Control-Allow-Credentials'' ''true''
              (w_Header_Add ''Access-Control-Allow-Origin'' (hlsAllowOrigin s) w))))"
  using assms
  by (auto simp add: ServeHTTP_route_def Let_def)

lemma route_options:
  assumes "Method r = MethodOptions" and "URL_Path r \<noteq> []"
  shows "ServeHTTP_route s w r =
     Inr (Respond (WriteHeader StatusOK
        (w_Header_Add ''Access-Control-Allow-Headers''
           (Header_Get (Header r) ''Access-Control-Request-Headers'')
           (w_Header_Add ''Access-Control-Allow-Methods'' ''GET, OPTIONS''
              (w_Header_Add ''Access-Control-Allow-Credentials'' ''true''
                 (w_Header_Add ''Access-Control-Allow-Origin'' (hlsAllowOrigin s) w))))))"
  using assms
  by (simp add: ServeHTTP_route_def Let_def MethodGet_def MethodOptions_def)

lemma route_other_method:
  assumes "Method r \<noteq> MethodGet" and "Method r \<noteq> MethodOptions" and "URL_Path r \<noteq> []"
  shows "ServeHTTP_route s w r =
     Inr (Respond (WriteHeader StatusNotFound
           (w_Header_Add ''Access-Control-Allow-Credentials'' ''true''
              (w_Header_Add ''Access-Control-Allow-Origin'' (hlsAllowOrigin s) w))))"
  using assms
  by (simp add: ServeHTTP_route_def Let_def)

lemma serve_respond:
  "ServeHTTP_route s w r = Inr (Respond w') \<Longrightarrow>
     ServeHTTP s e w r = Returned \<lparr>h_w = w', h_sent = None, h_io = []\<rparr>"
  by (simp add: ServeHTTP_def)

lemma serve_submit:
  "ServeHTTP_route s w r = Inr (Submit hreq) \<Longrightarrow> ServeHTTP s e w r = ServeHTTP_submit e hreq"
  by (simp add: ServeHTTP_def)

lemmas writer_simps =
  w_Header_Add_def Header_Add_def WriteHeader_def newResponseWriter_def
  StatusOK_def StatusNotFound_def StatusMovedPermanently_def

lemma route_submit_W:
  "ServeHTTP_route s w r = Inr (Submit hreq) \<Longrightarrow>
     W hreq = w_Header_Add ''Access-Control-Allow-Credentials'' ''true''
                (w_Header_Add ''Access-Control-Allow-Origin'' (hlsAllowOrigin s) w) \<and>
     Req hreq = r"
  by (auto simp: ServeHTTP_route_def Let_def split: if_splits prod.splits)

lemma cam1_route:
  "ServeHTTP_route srv0 newResponseWriter cam1_get =
      Inr (Submit \<lparr>Dir = ''cam1'', File = ''index.m3u8'', Req = cam1_get,
             W = \<lparr>rw_header = [(''Access-Control-Allow-Origin'', ''*''),
                                (''Access-Control-Allow-Credentials'', ''true'')],
                  rw_status = None\<rparr>\<rparr>)"
  using route_get_media [of cam1_get "CHR ''/''" "''cam1/index.m3u8''" srv0 newResponseWriter]
  by (simp add: cam1_get_def MethodGet_def HasSuffix_def TrimSuffix_def cam1_dir_base
      srv0_def newHLSServer_def writer_simps)

text \<open>
  Claim C3, as amended.  For a GET request whose path is a slash followed by \<open>pa\<close>:
  when \<open>pa\<close> ends in \<^verbatim>\<open>.ts\<close> or \<^verbatim>\<open>.m3u8\<close>, the handler builds the message with
  \<open>Dir\<close> the directory component of \<open>pa\<close> (\<^verbatim>\<open>path.Dir\<close>, a trailing separator
  stripped) and \<open>File\<close> its base name; when \<open>pa\<close> has neither suffix, does not end in
  a separator and is neither empty nor \<^verbatim>\<open>favicon.ico\<close>, the handler answers 301 with
  \<open>Location\<close> the request path followed by a slash, whatever the environment does, and
  submits nothing; when \<open>pa\<close> has neither suffix and ends in a separator, the message has
  \<open>Dir\<close> equal to \<open>pa\<close> without that separator and an empty \<open>File\<close>.
\<close>

theorem get_path_routing:
  assumes get: "Method r = MethodGet" and path: "URL_Path r = CHR ''/'' # pa"
  shows
    "(HasSuffix pa ''.ts'' \<or> HasSuffix pa ''.m3u8'' \<longrightarrow>
        ServeHTTP_route s newResponseWriter r =
          Inr (Submit \<lparr>Dir = TrimSuffix (gopath_Dir pa) ''/'', File = gopath_Base pa, Req = r,
                 W = \<lparr>rw_header = [(''Access-Control-Allow-Origin'', hlsAllowOrigin s),
                                    (''Access-Control-Allow-Credentials'', ''true'')],
                      rw_status = None\<rparr>\<rparr>)) \<and>
     (\<not> HasSuffix pa ''.ts'' \<and> \<not> HasSuffix pa ''.m3u8'' \<and> \<not> HasSuffix pa ''/'' \<and>
      pa \<noteq> [] \<and> pa \<noteq> ''favicon.ico'' \<longrightarrow>
        (\<forall>e. ServeHTTP s e newResponseWriter r =
          Returned \<lparr>h_w = \<lparr>rw_header = [(''Access-Control-Allow-Origin'', hlsAllowOrigin s),
                                         (''Access-Control-Allow-Credentials'', ''true''),
                                         (''Location'', URL_Path r @ ''/'')],
                           rw_status = Some 301\<rparr>,
                    h_sent = None, h_io = []\<rparr>)) \<and>
     (\<not> HasSuffix pa ''.ts'' \<and> \<not> HasSuffix pa ''.m3u8'' \<and> HasSuffix pa ''/'' \<longrightarrow>
        ServeHTTP_route s newResponseWriter r =
          Inr (Submit \<lparr>Dir = TrimSuffix pa ''/'', File = [], Req = r,
                 W = \<lparr>rw_header = [(''Access-Control-Allow-Origin'', hlsAllowOrigin s),
                                    (''Access-Control-Allow-Credentials'', ''true'')],
                      rw_status = None\<rparr>\<rparr>))"
proof (intro conjI impI allI)
  assume "HasSuffix pa ''.ts'' \<or> HasSuffix pa ''.m3u8''"
  from route_get_media [OF get path this]
  show "ServeHTTP_route s newResponseWriter r =
          Inr (Submit \<lparr>Dir = TrimSuffix (gopath_Dir pa) ''/'', File = gopath_Base pa, Req = r,
                 W = \<lparr>rw_header = [(''Access-Control-Allow-Origin'', hlsAllowOrigin s),
                                    (''Access-Control-Allow-Credentials'', ''true'')],
                      rw_status = None\<rparr>\<rparr>)"
    by (simp add: writer_simps)
next
  fix e
  assume "\<not> HasSuffix pa ''.ts'' \<and> \<not> HasSuffix pa ''.m3u8'' \<and> \<not> HasSuffix pa ''/'' \<and>
      pa \<noteq> [] \<and> pa \<noteq> ''favicon.ico''"
  then have "ServeHTTP_route s newResponseWriter r =
     Inr (Respond (WriteHeader StatusMovedPermanently
        (w_Header_Add ''Location'' (''/'' @ pa @ ''/'')
           (w_Header_Add ''Access-Control-Allow-Credentials'' ''true''
              (w_Header_Add ''Access-Control-Allow-Origin'' (hlsAllowOrigin s)
                 newResponseWriter)))))"
    using route_get_redirect [OF get path] by blast
  from serve_respond [OF this]
  show "ServeHTTP s e newResponseWriter r =
          Returned \<lparr>h_w = \<lparr>rw_header = [(''Access-Control-Allow-Origin'', hlsAllowOrigin s),
                                         (''Access-Control-Allow-Credentials'', ''true''),
                                         (''Location'', URL_Path r @ ''/'')],
                           rw_status = Some 301\<rparr>,
                    h_sent = None, h_io = []\<rparr>"
    by (simp add: writer_simps path)
next
  assume "\<not> HasSuffix pa ''.ts'' \<and> \<not> HasSuffix pa ''.m3u8'' \<and> HasSuffix pa ''/''"
  then have "ServeHTTP_route s newResponseWriter r =
     Inr (Submit \<lparr>Dir = TrimSuffix pa ''/'', File = [], Req = r,
        W = w_Header_Add ''Access-Control-Allow-Credentials'' ''true''
              (w_Header_Add ''Access-Control-Allow-Origin'' (hlsAllowOrigin s)
                 newResponseWriter)\<rparr>)"
    using route_get_directory [OF get path] by blast
  then show "ServeHTTP_route s newResponseWriter r =
          Inr (Submit \<lparr>Dir = TrimSuffix pa ''/'', File = [], Req = r,
                 W = \<lparr>rw_header = [(''Access-Control-Allow-Origin'', hlsAllowOrigin s),
                                    (''Access-Control-Allow-Credentials'', ''true'')],
                      rw_status = None\<rparr>\<rparr>)"
    by (simp add: writer_simps)
qed

theorem get_path_routing_witness:
  "ServeHTTP_route srv0 newResponseWriter cam1_get =
      Inr (Submit \<lparr>Dir = ''cam1'', File = ''index.m3u8'', Req = cam1_get,
             W = \<lparr>rw_header = [(''Access-Control-Allow-Origin'', ''*''),
                                (''Access-Control-Allow-Credentials'', ''true'')],
                  rw_status = None\<rparr>\<rparr>) \<and>
   ServeHTTP srv0 env0 newResponseWriter (cam1_get\<lparr>URL_Path := ''/cam1''\<rparr>) =
      Returned \<lparr>h_w = \<lparr>rw_header = [(''Access-Control-Allow-Origin'', ''*''),
                                     (''Access-Control-Allow-Credentials'', ''true''),
                                     (''Location'', ''/cam1/'')],
                       rw_status = Some 301\<rparr>,
                h_sent = None, h_io = []\<rparr> \<and>
   ServeHTTP_route srv0 newResponseWriter (cam1_get\<lparr>URL_Path := ''/cam1/''\<rparr>) =
      Inr (Submit \<lparr>Dir = ''cam1'', File = [], Req = cam1_get\<lparr>URL_Path := ''/cam1/''\<rparr>,
             W = \<lparr>rw_header = [(''Access-Control-Allow-Origin'', ''*''),
                                (''Access-Control-Allow-Credentials'', ''true'')],
                  rw_status = None\<rparr>\<rparr>)"
  using get_path_routing [of cam1_get "''cam1/index.m3u8''" srv0]
    get_path_routing [of "cam1_get\<lparr>URL_Path := ''/cam1''\<rparr>" "''cam1''" srv0]
    get_path_routing [of "cam1_get\<lparr>URL_Path := ''/cam1/''\<rparr>" "''cam1/''" srv0]
  by (simp add: cam1_get_def MethodGet_def HasSuffix_def TrimSuffix_def cam1_dir_base
      srv0_def newHLSServer_def)

text \<open>
  The path \<^verbatim>\<open>/favicon.ico\<close> has no media suffix and no trailing separator, and is
  answered 404 with no \<open>Location\<close> header instead of a redirect.
\<close>

theorem favicon_not_redirected:
  "\<not> HasSuffix ''favicon.ico'' ''.ts'' \<and> \<not> HasSuffix ''favicon.ico'' ''.m3u8'' \<and>
   \<not> HasSuffix ''favicon.ico'' ''/'' \<and>
   ServeHTTP srv0 env0 newResponseWriter (cam1_get\<lparr>URL_Path := ''/favicon.ico''\<rparr>) =
      Returned \<lparr>h_w = \<lparr>rw_header = [(''Access-Control-Allow-Origin'', ''*''),
                                     (''Access-Control-Allow-Credentials'', ''true'')],
                       rw_status = Some 404\<rparr>,
                h_sent = None, h_io = []\<rparr>"
  by (simp add: HasSuffix_def ServeHTTP_def ServeHTTP_route_def cam1_get_def MethodGet_def
      Let_def writer_simps srv0_def newHLSServer_def)

lemma options_preflight:
  assumes "Method r = MethodOptions" and "URL_Path r \<noteq> []"
  shows "ServeHTTP s e newResponseWriter r =
     Returned \<lparr>h_w = \<lparr>rw_header =
                        [(''Access-Control-Allow-Origin'', hlsAllowOrigin s),
                         (''Access-Control-Allow-Credentials'', ''true''),
                         (''Access-Control-Allow-Methods'', ''GET, OPTIONS''),
                         (''Access-Control-Allow-Headers'',
                            Header_Get (Header r) ''Access-Control-Request-Headers'')],
                      rw_status = Some 200\<rparr>,
               h_sent = None, h_io = []\<rparr>"
  using serve_respond [OF route_options [OF assms]]
  by (simp add: writer_simps)

text \<open>
  Claim C4: every OPTIONS request is answered with status 200, no body, the four
  access-control headers, and without the registry.  The code does not do so for an
  OPTIONS request whose URL path is empty (the request line
  \<^verbatim>\<open>OPTIONS http://host:8888 HTTP/1.1\<close>): the handler panics at the slice expression
  before any header or status is written.  For every OPTIONS request with a non-empty
  path the reply is the one described (\<open>options_preflight\<close> above).
\<close>

theorem options_empty_path_panics:
  "Method options_no_path = MethodOptions \<and>
   ServeHTTP s e w options_no_path = Panicked SliceBoundsOutOfRange"
  by (simp add: options_no_path_def MethodOptions_def ServeHTTP_def ServeHTTP_route_def)

lemma not_found_responses:
  assumes "URL_Path r = c # pa"
    and "(Method r \<noteq> MethodGet \<and> Method r \<noteq> MethodOptions) \<or>
         (Method r = MethodGet \<and> (pa = [] \<or> pa = ''favicon.ico''))"
  shows "ServeHTTP s e newResponseWriter r =
     Returned \<lparr>h_w = \<lparr>rw_header =
                        [(''Access-Control-Allow-Origin'', hlsAllowOrigin s),
                         (''Access-Control-Allow-Credentials'', ''true'')],
                      rw_status = Some 404\<rparr>,
               h_sent = None, h_io = []\<rparr>"
proof -
  have "ServeHTTP_route s newResponseWriter r =
     Inr (Respond (WriteHeader StatusNotFound
           (w_Header_Add ''Access-Control-Allow-Credentials'' ''true''
              (w_Header_Add ''Access-Control-Allow-Origin'' (hlsAllowOrigin s)
                 newResponseWriter))))"
    using assms route_other_method [of r s newResponseWriter]
      route_get_reserved [of r c pa s newResponseWriter]
    by auto
  from serve_respond [OF this] show ?thesis
    by (simp add: writer_simps)
qed

text \<open>
  Claim C5: every request whose method is neither GET nor OPTIONS, and every GET
  request for the empty path or \<^verbatim>\<open>favicon.ico\<close>, is answered 404 without a message
  being built.  The code does not do so for a CONNECT request, whose URL path is empty:
  the handler panics at the slice expression instead of answering 404.  For every
  request with a non-empty path the 404 answers are the ones described
  (\<open>not_found_responses\<close> above).
\<close>

theorem connect_empty_path_panics:
  "Method connect_request \<noteq> MethodGet \<and> Method connect_request \<noteq> MethodOptions \<and>
   ServeHTTP s e w connect_request = Panicked SliceBoundsOutOfRange"
  by (simp add: connect_request_def MethodGet_def MethodOptions_def ServeHTTP_def
      ServeHTTP_route_def)

lemma slice_in_bounds:
  "URL_Path r \<noteq> [] \<Longrightarrow> \<exists>x. ServeHTTP_route s w r = Inr x"
  by (simp add: ServeHTTP_route_def Let_def split: prod.splits)

text \<open>
  Claim C10: the slice expression \<^verbatim>\<open>r.URL.Path[1:]\<close> is in bounds for every request,
  the empty URL path included.  The code does not satisfy this: for a request whose URL
  path is the empty string the slice expression is out of bounds, whatever the method,
  and the handler panics.  For every non-empty path it is in bounds, also when the path
  does not begin with a slash (\<open>slice_in_bounds\<close> above).
\<close>

theorem empty_path_slice_panics:
  "ServeHTTP_route s w (r\<lparr>URL_Path := []\<rparr>) = Inl SliceBoundsOutOfRange \<and>
   ServeHTTP s e w (r\<lparr>URL_Path := []\<rparr>) = Panicked SliceBoundsOutOfRange"
  by (simp add: ServeHTTP_def ServeHTTP_route_def)

subsection \<open>The reply and the copy loop\<close>

text \<open>
  Claim C6.  When the message has been handed to the event loop and the worker replies
  with the nil reader, the handler returns: nothing was read or written (no body byte,
  no flush), the response writer is as the worker left it, and the handler itself wrote
  no status before handing the writer over.
\<close>

theorem nil_reply_empty_body:
  assumes "ServeHTTP_route s w r = Inr (Submit hreq)"
    and "go_select e [Send_request, Recv_ctxDone] = Some Send_request"
    and "res e = Some None"
  shows "ServeHTTP s e w r =
           Returned \<lparr>h_w = workerW e (W hreq), h_sent = Some hreq, h_io = []\<rparr> \<and>
         rw_status (W hreq) = rw_status w"
  using assms route_submit_W [OF assms(1)]
  by (simp add: ServeHTTP_def ServeHTTP_submit_def w_Header_Add_def)

theorem nil_reply_empty_body_witness:
  "ServeHTTP_route srv0 newResponseWriter cam1_get =
      Inr (Submit \<lparr>Dir = ''cam1'', File = ''index.m3u8'', Req = cam1_get,
             W = \<lparr>rw_header = [(''Access-Control-Allow-Origin'', ''*''),
                                (''Access-Control-Allow-Credentials'', ''true'')],
                  rw_status = None\<rparr>\<rparr>) \<and>
   go_select env0 [Send_request, Recv_ctxDone] = Some Send_request \<and>
   res env0 = Some None \<and>
   ServeHTTP srv0 env0 newResponseWriter cam1_get =
      Returned \<lparr>h_w = \<lparr>rw_header = [(''Access-Control-Allow-Origin'', ''*''),
                                     (''Access-Control-Allow-Credentials'', ''true'')],
                       rw_status = None\<rparr>,
                h_sent = Some \<lparr>Dir = ''cam1'', File = ''index.m3u8'', Req = cam1_get,
                   W = \<lparr>rw_header = [(''Access-Control-Allow-Origin'', ''*''),
                                (''Access-Control-Allow-Credentials'', ''true'')],
                        rw_status = None\<rparr>\<rparr>,
                h_io = []\<rparr>"
proof -
  have sel: "go_select env0 [Send_request, Recv_ctxDone] = Some Send_request"
    by (simp add: go_select_def ready_def env0_def)
  have rep: "res env0 = Some None"
    by (simp add: env0_def)
  from nil_reply_empty_body [OF cam1_route sel rep] cam1_route sel rep show ?thesis
    by (simp add: env0_def)
qed

lemma WriteHeader_twice: "WriteHeader c (WriteHeader c w) = WriteHeader c w"
  by (simp add: WriteHeader_def)

lemma copy_loop_chunks:
  assumes "\<forall>d \<in> set ds. length d \<le> 4096"
  shows "copy_loop (map (\<lambda>d. ReadResult d False) ds @ rs) (replicate (length ds) True @ ws) h =
         copy_loop rs ws
           (h\<lparr>h_w := (if ds = [] then h_w h else WriteHeader StatusOK (h_w h)),
              h_io := h_io h @ concat (map (\<lambda>d. [EvRead d False, EvWrite d True, EvFlush]) ds)\<rparr>)"
  using assms
proof (induction ds arbitrary: h)
  case Nil
  then show ?case by simp
next
  case (Cons d ds)
  then show ?case
    by (simp add: WriteHeader_twice)
qed

text \<open>
  Claim C7.  With chunks of at most 4096 bytes (a \<^verbatim>\<open>Read\<close> into the buffer of 4096
  bytes returns no more): if the reads return the chunks \<open>ds\<close>
  and then an error, and the writes of these chunks succeed, the handler returns after
  having, for each chunk in turn, read it, written it and flushed, and then met the read
  error; if instead the write of the chunk after \<open>ds\<close> fails, it returns right after that
  write.  In both cases nothing further is done to the response writer.  As long as no
  read or write fails the handler stays in the loop.  The loop is what the handler runs
  once the worker has replied with a reader.
\<close>

theorem stream_copy:
  "((\<forall>d \<in> set ds. length d \<le> 4096) \<longrightarrow>
      copy_loop (map (\<lambda>d. ReadResult d False) ds @ ReadResult d' True # rs)
          (replicate (length ds) True @ ws) h =
        Returned (h\<lparr>h_w := (if ds = [] then h_w h else WriteHeader StatusOK (h_w h)),
                    h_io := h_io h @
                      concat (map (\<lambda>d. [EvRead d False, EvWrite d True, EvFlush]) ds) @
                      [EvRead d' True]\<rparr>)) \<and>
   ((\<forall>d \<in> set ds. length d \<le> 4096) \<and> length d' \<le> 4096 \<longrightarrow>
      copy_loop (map (\<lambda>d. ReadResult d False) ds @ ReadResult d' False # rs)
          (replicate (length ds) True @ False # ws) h =
        Returned (h\<lparr>h_w := WriteHeader StatusOK (h_w h),
                    h_io := h_io h @
                      concat (map (\<lambda>d. [EvRead d False, EvWrite d True, EvFlush]) ds) @
                      [EvRead d' False, EvWrite d' False]\<rparr>)) \<and>
   ((\<forall>d \<in> set ds. length d \<le> 4096) \<longrightarrow>
      copy_loop (map (\<lambda>d. ReadResult d False) ds) (replicate (length ds) True) h =
        Copying (h\<lparr>h_w := (if ds = [] then h_w h else WriteHeader StatusOK (h_w h)),
                   h_io := h_io h @
                     concat (map (\<lambda>d. [EvRead d False, EvWrite d True, EvFlush]) ds)\<rparr>)) \<and>
   (go_select e [Send_request, Recv_ctxDone] = Some Send_request \<and> res e = Some (Some rd) \<longrightarrow>
      ServeHTTP_submit e hreq =
        copy_loop rd (writes e) \<lparr>h_w = workerW e (W hreq), h_sent = Some hreq, h_io = []\<rparr>)"
proof (intro conjI impI)
  assume a: "\<forall>d \<in> set ds. length d \<le> 4096"
  show "copy_loop (map (\<lambda>d. ReadResult d False) ds @ ReadResult d' True # rs)
          (replicate (length ds) True @ ws) h =
        Returned (h\<lparr>h_w := (if ds = [] then h_w h else WriteHeader StatusOK (h_w h)),
                    h_io := h_io h @
                      concat (map (\<lambda>d. [EvRead d False, EvWrite d True, EvFlush]) ds) @
                      [EvRead d' True]\<rparr>)"
    by (simp add: copy_loop_chunks [OF a])
  show "copy_loop (map (\<lambda>d. ReadResult d False) ds) (replicate (length ds) True) h =
        Copying (h\<lparr>h_w := (if ds = [] then h_w h else WriteHeader StatusOK (h_w h)),
                   h_io := h_io h @
                     concat (map (\<lambda>d. [EvRead d False, EvWrite d True, EvFlush]) ds)\<rparr>)"
    using copy_loop_chunks [OF a, of "[]" "[]" h] by simp
next
  assume "(\<forall>d \<in> set ds. length d \<le> 4096) \<and> length d' \<le> 4096"
  then have a: "\<forall>d \<in> set ds. length d \<le> 4096" and b: "length d' \<le> 4096"
    by simp_all
  show "copy_loop (map (\<lambda>d. ReadResult d False) ds @ ReadResult d' False # rs)
          (replicate (length ds) True @ False # ws) h =
        Returned (h\<lparr>h_w := WriteHeader StatusOK (h_w h),
                    h_io := h_io h @
                      concat (map (\<lambda>d. [EvRead d False, EvWrite d True, EvFlush]) ds) @
                      [EvRead d' False, EvWrite d' False]\<rparr>)"
    using b by (simp add: copy_loop_chunks [OF a] WriteHeader_twice)
next
  assume "go_select e [Send_request, Recv_ctxDone] = Some Send_request \<and>
    res e = Some (Some rd)"
  then show "ServeHTTP_submit e hreq =
        copy_loop rd (writes e) \<lparr>h_w = workerW e (W hreq), h_sent = Some hreq, h_io = []\<rparr>"
    by (simp add: ServeHTTP_submit_def)
qed

theorem stream_copy_witness:
  "length ''#EXTM3U'' \<le> 4096 \<and> length ''seg0.ts'' \<le> 4096 \<and>
   go_select env_stream [Send_request, Recv_ctxDone] = Some Send_request \<and>
   ServeHTTP_submit env_stream cam1_hreq =
     Returned \<lparr>h_w = \<lparr>rw_header = [(''Access-Control-Allow-Origin'', ''*''),
                                    (''Access-Control-Allow-Credentials'', ''true'')],
                      rw_status = Some 200\<rparr>,
               h_sent = Some cam1_hreq,
               h_io = [EvRead ''#EXTM3U'' False, EvWrite ''#EXTM3U'' True, EvFlush,
                       EvRead ''seg0.ts'' False, EvWrite ''seg0.ts'' True, EvFlush,
                       EvRead [] True]\<rparr> \<and>
   copy_loop [ReadResult ''#EXTM3U'' False, ReadResult ''seg0.ts'' False]
       [True, False] \<lparr>h_w = W cam1_hreq, h_sent = Some cam1_hreq, h_io = []\<rparr> =
     Returned \<lparr>h_w = \<lparr>rw_header = [(''Access-Control-Allow-Origin'', ''*''),
                                    (''Access-Control-Allow-Credentials'', ''true'')],
                      rw_status = Some 200\<rparr>,
               h_sent = Some cam1_hreq,
               h_io = [EvRead ''#EXTM3U'' False, EvWrite ''#EXTM3U'' True, EvFlush,
                       EvRead ''seg0.ts'' False, EvWrite ''seg0.ts'' False]\<rparr> \<and>
   copy_loop [ReadResult ''#EXTM3U'' False] [True]
       \<lparr>h_w = W cam1_hreq, h_sent = Some cam1_hreq, h_io = []\<rparr> =
     Copying \<lparr>h_w = \<lparr>rw_header = [(''Access-Control-Allow-Origin'', ''*''),
                                    (''Access-Control-Allow-Credentials'', ''true'')],
                      rw_status = Some 200\<rparr>,
               h_sent = Some cam1_hreq,
               h_io = [EvRead ''#EXTM3U'' False, EvWrite ''#EXTM3U'' True, EvFlush]\<rparr>"
proof -
  have sel: "go_select env_stream [Send_request, Recv_ctxDone] = Some Send_request"
    by (simp add: go_select_def ready_def env_stream_def)
  have rd: "res env_stream =
      Some (Some [ReadResult ''#EXTM3U'' False, ReadResult ''seg0.ts'' False, ReadResult [] True])"
    and ws: "writes env_stream = [True, True, True]" and wk: "workerW env_stream = (\<lambda>w. w)"
    by (simp_all add: env_stream_def)
  note a = stream_copy [of "[''#EXTM3U'', ''seg0.ts'']" "[]" "[]" "[True]"
      "\<lparr>h_w = W cam1_hreq, h_sent = Some cam1_hreq, h_io = []\<rparr>" env_stream
      "[ReadResult ''#EXTM3U'' False, ReadResult ''seg0.ts'' False, ReadResult [] True]"
      cam1_hreq]
  note b = stream_copy [of "[''#EXTM3U'']" "''seg0.ts''" "[]" "[]"
      "\<lparr>h_w = W cam1_hreq, h_sent = Some cam1_hreq, h_io = []\<rparr>" env_stream "[]" cam1_hreq]
  from a b sel show ?thesis
    by (simp add: rd ws wk cam1_hreq_def WriteHeader_def StatusOK_def)
qed

subsection \<open>Cancellation\<close>

lemma copy_loop_not_Blocked: "copy_loop rs ws h \<noteq> Blocked ops h'"
  by (induction rs ws h rule: copy_loop.induct) (auto split: list.splits)

lemma select_send_or_done:
  "go_select e [c, Recv_ctxDone] =
     (if ready e c then (if ctxDone e \<and> odd (pick e) then Some Recv_ctxDone else Some c)
      else if ctxDone e then Some Recv_ctxDone else None)"
proof -
  have r: "ready e Recv_ctxDone = ctxDone e"
    by (simp add: ready_def)
  show ?thesis
  proof (cases "even (pick e)")
    case True
    then have "pick e mod Suc (Suc 0) = 0"
      by (metis even_iff_mod_2_eq_zero numeral_2_eq_2 One_nat_def)
    with True show ?thesis
      by (simp add: go_select_def r)
  next
    case False
    then have "pick e mod Suc (Suc 0) = Suc 0"
      by (metis odd_iff_mod_2_eq_one numeral_2_eq_2 One_nat_def)
    with False show ?thesis
      by (simp add: go_select_def r)
  qed
qed

text \<open>
  Claim C8, as amended.  A caller of \<^verbatim>\<open>OnRemuxerClose\<close> or \<^verbatim>\<open>OnPathSourceReady\<close> and
  a handler submitting its message stay blocked exactly when the event loop does not
  receive and the context is not cancelled: these three waits are released by the
  cancellation.  The wait for the reply is not: once the message has been handed over and
  no reply is delivered, the handler stays blocked on the reply channel, cancelled or
  not.
\<close>

theorem cancellation_guards:
  "((\<exists>ops. OnRemuxerClose e c = NotifyBlocked ops) \<longleftrightarrow> \<not> loopReceives e \<and> \<not> ctxDone e) \<and>
   ((\<exists>ops. OnPathSourceReady e n = NotifyBlocked ops) \<longleftrightarrow> \<not> loopReceives e \<and> \<not> ctxDone e) \<and>
   ((\<exists>h. ServeHTTP_submit e hreq = Blocked [Send_request, Recv_ctxDone] h) \<longleftrightarrow>
      \<not> loopReceives e \<and> \<not> ctxDone e) \<and>
   (loopReceives e \<and> even (pick e) \<and> res e = None \<longrightarrow>
      ServeHTTP_submit e hreq =
        Blocked [Recv_cres] \<lparr>h_w = W hreq, h_sent = Some hreq, h_io = []\<rparr>)"
proof (intro conjI impI)
  show "(\<exists>ops. OnRemuxerClose e c = NotifyBlocked ops) \<longleftrightarrow> \<not> loopReceives e \<and> \<not> ctxDone e"
    by (simp add: OnRemuxerClose_def select_send_or_done ready_def)
  show "(\<exists>ops. OnPathSourceReady e n = NotifyBlocked ops) \<longleftrightarrow> \<not> loopReceives e \<and> \<not> ctxDone e"
    by (simp add: OnPathSourceReady_def select_send_or_done ready_def)
  show "(\<exists>h. ServeHTTP_submit e hreq = Blocked [Send_request, Recv_ctxDone] h) \<longleftrightarrow>
      \<not> loopReceives e \<and> \<not> ctxDone e"
    by (auto simp: ServeHTTP_submit_def select_send_or_done ready_def copy_loop_not_Blocked
        split: option.splits)
next
  assume "loopReceives e \<and> even (pick e) \<and> res e = None"
  then show "ServeHTTP_submit e hreq =
        Blocked [Recv_cres] \<lparr>h_w = W hreq, h_sent = Some hreq, h_io = []\<rparr>"
    by (simp add: ServeHTTP_submit_def select_send_or_done ready_def)
qed

theorem cancellation_guards_witness:
  "loopReceives env_cancelled \<and> even (pick env_cancelled) \<and> res env_cancelled = None \<and>
   OnRemuxerClose env_cancelled (newHLSRemuxer 0 False 3 1000 512 ''cam1'') =
     Delivered (RemuxerClose (newHLSRemuxer 0 False 3 1000 512 ''cam1'')) \<and>
   OnPathSourceReady (env_cancelled\<lparr>loopReceives := False\<rparr>) ''cam1'' = Dropped \<and>
   ServeHTTP_submit (env_cancelled\<lparr>loopReceives := False\<rparr>) cam1_hreq =
     Returned \<lparr>h_w = W cam1_hreq, h_sent = None, h_io = []\<rparr> \<and>
   ServeHTTP_submit env_cancelled cam1_hreq =
     Blocked [Recv_cres] \<lparr>h_w = W cam1_hreq, h_sent = Some cam1_hreq, h_io = []\<rparr>"
  using cancellation_guards [of env_cancelled "newHLSRemuxer 0 False 3 1000 512 ''cam1''"
      "''cam1''" cam1_hreq]
  by (simp add: env_cancelled_def OnRemuxerClose_def OnPathSourceReady_def ServeHTTP_submit_def
      go_select_def ready_def)

text \<open>
  With the context cancelled, a handler whose message was taken by the event loop and
  whose reply channel is never written stays blocked on the receive from that channel.
\<close>

theorem reply_wait_ignores_cancellation:
  "ctxDone env_cancelled \<and>
   ServeHTTP srv0 env_cancelled newResponseWriter cam1_get =
     Blocked [Recv_cres]
       \<lparr>h_w = \<lparr>rw_header = [(''Access-Control-Allow-Origin'', ''*''),
                             (''Access-Control-Allow-Credentials'', ''true'')],
               rw_status = None\<rparr>,
        h_sent = Some cam1_hreq, h_io = []\<rparr>"
  by (simp add: ServeHTTP_def cam1_route ServeHTTP_submit_def go_select_def ready_def
      env_cancelled_def cam1_hreq_def)

end
